theory Spec2Isabelle
  imports Main
begin

section \<open>Event model (events.go)\<close>

text \<open>
  \<open>EventType\<close> is a Go string type, so an inbound frame may carry any string as its
  type; the thirteen named events are constants of it. Instants of \<open>time.Time\<close> are
  natural numbers, \<open>[]byte\<close> is a character list.
\<close>

type_synonym EventType = string
type_synonym time = nat
type_synonym bytes = string

definition EventConnect :: EventType where "EventConnect = ''connect''"
definition EventDisconnect :: EventType where "EventDisconnect = ''disconnect''"
definition EventMessageSent :: EventType where "EventMessageSent = ''message_sent''"
definition EventMessageDelivered :: EventType where "EventMessageDelivered = ''message_delivered''"
definition EventMessageRead :: EventType where "EventMessageRead = ''message_read''"
definition EventMessageReceived :: EventType where "EventMessageReceived = ''message_received''"
definition EventGroupMessageSent :: EventType where "EventGroupMessageSent = ''group_message_sent''"
definition EventGroupMessageReceived :: EventType where
  "EventGroupMessageReceived = ''group_message_received''"
definition EventTypingStart :: EventType where "EventTypingStart = ''typing_start''"
definition EventTypingStop :: EventType where "EventTypingStop = ''typing_stop''"
definition EventUserOnline :: EventType where "EventUserOnline = ''user_online''"
definition EventUserOffline :: EventType where "EventUserOffline = ''user_offline''"
definition EventError :: EventType where "EventError = ''error''"

text \<open>
  The payload structs of events.go, in the order of the file. The fields of
  \<open>MessagePayload\<close> are ID, ChatID, SenderID, ReceiverID, Content, Type, Status,
  CreatedAt; of \<open>GroupMessagePayload\<close> ID, GroupID, SenderID, Content, Type, CreatedAt;
  of \<open>MessageStatusPayload\<close> MessageID, Status, UpdatedAt; of \<open>ErrorPayload\<close> Code,
  Message.
\<close>

datatype payload =
    MessagePayload string string string string string string string time
  | GroupMessagePayload string string string string string time
  | TypingPayload (UserID: string) (ChatID: string) (GroupID: string) (UserName: string)
  | PresencePayload (UserID: string) (IsOnline: bool) (LastSeen: time)
  | MessageStatusPayload string string time
  | ErrorPayload string string

record WSMessage =
  Type :: EventType
  Payload :: payload
  Timestamp :: time

text \<open>
  What \<open>json.Unmarshal\<close> stores in an \<open>interface{}\<close>: nil, bool, float64, string, a
  slice or a map. Nothing in the program inspects a number, so \<open>float64\<close> stays an
  uninterpreted type.
\<close>

typedecl float64

datatype json =
    JNull
  | JBool bool
  | JNumber float64
  | JString string
  | JArray "json list"
  | JObject "(string \<times> json) list"

record IncomingMessage =
  in_Type :: EventType
  in_Payload :: "string \<rightharpoonup> json"

text \<open>\<open>v, _ := payload[k].(string)\<close>: the string when the key holds one, \<open>""\<close> otherwise.\<close>

fun string_assert :: "json option \<Rightarrow> string" where
  "string_assert (Some (JString v)) = v"
| "string_assert _ = []"

text \<open>
  \<open>json.Marshal\<close> and \<open>json.Unmarshal\<close> belong to the Go library; every function that
  calls one takes it as a parameter, \<open>Inl\<close> being the error it returns.
\<close>

type_synonym marshal = "WSMessage \<Rightarrow> string + bytes"
type_synonym unmarshal = "bytes \<Rightarrow> string + IncomingMessage"

section \<open>Process state\<close>

text \<open>
  A \<open>*Client\<close> is identified by its fields: \<open>Conn\<close> and \<open>Send\<close> are the addresses of
  its connection and of its outbound channel, and \<open>NewClient\<close> gives every client a
  channel of its own. The \<open>Hub\<close> field is left out: the process has one hub
  (\<open>handlers.WSHub\<close>).
\<close>

record Client =
  ID :: string
  UniqueID :: string
  Conn :: nat
  Send :: nat

record chan =
  buf :: "bytes list"
  cap :: nat
  closed :: bool

record user_row =
  is_online :: bool
  last_seen :: time

text \<open>One constructor for each \<open>log.Printf\<close> of hub and client.\<close>

datatype log_entry =
    LogFailedUpdateOnline
  | LogFailedUpdateOffline
  | LogClientConnected string string
  | LogClientDisconnected string string
  | LogFailedGetContacts
  | LogFailedMarshalPresence
  | LogFailedSendPresence string
  | LogFailedMarshal
  | LogFailedSend string
  | LogFailedGetGroupMembers
  | LogWebSocketError
  | LogFailedParse
  | LogUnknownType EventType

text \<open>
  The state of the process: the hub (\<open>Clients\<close>; the clients sent on the unbuffered
  channels \<open>Register\<close> and \<open>Unregister\<close> that \<open>Run\<close> has still to serve, oldest
  first; whether \<open>mu\<close> is held by a writer), the channels and connections by
  address, the three tables of the store the hub reads or writes, and the log.
  \<open>pool_errs\<close> lists the outcomes of the coming calls of \<open>database.Pool\<close>, \<open>True\<close>
  for a call that returns an error; once the list is used up calls succeed.

  The operations of hub and client are modelled one at a time, each from its first
  line to its last. Read locks are taken and released inside one operation, so only the
  writer's hold of \<open>mu\<close> is state; \<open>sync.RWMutex\<close> is not reentrant, and a goroutine
  that asks for \<open>mu\<close>, to read or to write, while a writer holds it waits for the
  writer's \<open>Unlock\<close>.
\<close>

record world =
  Clients :: "string \<rightharpoonup> Client"
  Register :: "Client list"
  Unregister :: "Client list"
  mu_locked :: bool
  chans :: "nat \<Rightarrow> chan"
  next_chan :: nat
  conn_closed :: "nat \<Rightarrow> bool"
  users :: "string \<rightharpoonup> user_row"
  contacts :: "(string \<times> string) list"
  group_members :: "(string \<times> string) list"
  pool_errs :: "bool list"
  logs :: "log_entry list"

text \<open>
  How a call ends: it returns, it panics (nothing in the program recovers a panic, so
  the process ends), or its goroutine waits in the state given, for \<open>mu\<close> or for the
  hub to receive. With the operations run one at a time, the writer that holds \<open>mu\<close>
  is then either the call itself or a call that waits already, and the wait never
  ends.
\<close>

datatype panic = CloseOfClosedChannel | SendOnClosedChannel

datatype 'a outcome = Return 'a | Panic panic | Blocked world

fun and_then :: "'a outcome \<Rightarrow> ('a \<Rightarrow> 'b outcome) \<Rightarrow> 'b outcome" where
  "and_then (Return x) f = f x"
| "and_then (Panic p) f = Panic p"
| "and_then (Blocked s) f = Blocked s"

definition log_Printf :: "log_entry \<Rightarrow> world \<Rightarrow> world" where
  "log_Printf e s = s\<lparr>logs := logs s @ [e]\<rparr>"

subsection \<open>Channels\<close>

text \<open>\<open>close(ch)\<close> panics on a closed channel.\<close>

definition close_chan :: "nat \<Rightarrow> world \<Rightarrow> world outcome" where
  "close_chan a s =
     (if closed (chans s a) then Panic CloseOfClosedChannel
      else Return (s\<lparr>chans := (chans s)(a := (chans s a)\<lparr>closed := True\<rparr>)\<rparr>))"

text \<open>
  \<open>select { case ch <- data: ... default: ... }\<close>: a send on a closed channel
  panics; otherwise the send proceeds when the buffer has room, and the default case
  runs when it is full. The flag returned says whether the send proceeded.
\<close>

definition select_send :: "nat \<Rightarrow> bytes \<Rightarrow> world \<Rightarrow> (bool \<times> world) outcome" where
  "select_send a data s =
     (let ch = chans s a in
      if closed ch then Panic SendOnClosedChannel
      else if length (buf ch) < cap ch
        then Return (True, s\<lparr>chans := (chans s)(a := ch\<lparr>buf := buf ch @ [data]\<rparr>)\<rparr>)
        else Return (False, s))"

subsection \<open>The store\<close>

definition next_err :: "bool list \<Rightarrow> bool" where
  "next_err es = (case es of [] \<Rightarrow> False | e # _ \<Rightarrow> e)"

text \<open>
  \<open>UPDATE users SET is_online = $b, last_seen = $1 WHERE id = $2\<close>. The flag
  returned is \<open>err != nil\<close>.
\<close>

definition Exec_update_users :: "bool \<Rightarrow> time \<Rightarrow> string \<Rightarrow> world \<Rightarrow> bool \<times> world" where
  "Exec_update_users b t uid s =
     (let s1 = s\<lparr>pool_errs := tl (pool_errs s)\<rparr> in
      if next_err (pool_errs s) then (True, s1)
      else (False,
        (case users s uid of
           None \<Rightarrow> s1
         | Some r \<Rightarrow> s1\<lparr>users := (users s)(uid \<mapsto> \<lparr>is_online = b, last_seen = t\<rparr>)\<rparr>)))"

text \<open>
  \<open>SELECT user_id FROM contacts WHERE contact_id = $1 UNION
  SELECT contact_id FROM contacts WHERE user_id = $1\<close>; a row of \<open>contacts\<close> is
  (user_id, contact_id), and UNION removes duplicates. \<open>None\<close> is a query that
  returns an error. Both columns are NOT NULL, so \<open>rows.Scan\<close> into a string does not
  fail and the loops' \<open>continue\<close> on a failed scan is never taken.
\<close>

definition Query_contacts :: "string \<Rightarrow> world \<Rightarrow> string list option \<times> world" where
  "Query_contacts uid s =
     (let s1 = s\<lparr>pool_errs := tl (pool_errs s)\<rparr> in
      if next_err (pool_errs s) then (None, s1)
      else (Some (remdups
              (map fst (filter (\<lambda>r. snd r = uid) (contacts s)) @
               map snd (filter (\<lambda>r. fst r = uid) (contacts s)))), s1))"

text \<open>
  \<open>SELECT user_id FROM group_members WHERE group_id = $1\<close>; a row of
  \<open>group_members\<close> is (group_id, user_id).
\<close>

definition Query_group_members :: "string \<Rightarrow> world \<Rightarrow> string list option \<times> world" where
  "Query_group_members gid s =
     (let s1 = s\<lparr>pool_errs := tl (pool_errs s)\<rparr> in
      if next_err (pool_errs s) then (None, s1)
      else (Some (map snd (filter (\<lambda>r. fst r = gid) (group_members s))), s1))"

section \<open>Hub (hub.go)\<close>

definition NewHub :: "world \<Rightarrow> world" where
  "NewHub s = s\<lparr>Clients := Map.empty, Register := [], Unregister := [], mu_locked := False\<rparr>"

text \<open>
  The block every broadcast runs for one recipient:
  \<open>if client, ok := h.Clients[userID]; ok { select { case client.Send <- data:
  default: log.Printf(...) } }\<close>.
\<close>

definition send_if_online :: "log_entry \<Rightarrow> string \<Rightarrow> bytes \<Rightarrow> world \<Rightarrow> world outcome" where
  "send_if_online dflt userID data s =
     (case Clients s userID of
        None \<Rightarrow> Return s
      | Some client \<Rightarrow>
          and_then (select_send (Send client) data s)
            (\<lambda>(sent, s1). Return (if sent then s1 else log_Printf dflt s1)))"

text \<open>
  The loop of \<open>broadcastPresence\<close> over the rows: each pass takes \<open>h.mu.RLock()\<close>,
  which waits while a writer holds \<open>mu\<close>.
\<close>

fun presence_rows :: "bytes \<Rightarrow> string list \<Rightarrow> world \<Rightarrow> world outcome" where
  "presence_rows data [] s = Return s"
| "presence_rows data (contactID # rows) s =
     (if mu_locked s then Blocked s
      else and_then (send_if_online (LogFailedSendPresence contactID) contactID data s)
             (presence_rows data rows))"

definition broadcastPresence ::
  "marshal \<Rightarrow> time \<Rightarrow> string \<Rightarrow> bool \<Rightarrow> world \<Rightarrow> world outcome" where
  "broadcastPresence json_Marshal now userID isOnline s =
     (case Query_contacts userID s of
        (None, s1) \<Rightarrow> Return (log_Printf LogFailedGetContacts s1)
      | (Some rows, s1) \<Rightarrow>
          (let message = \<lparr>Type = (if \<not> isOnline then EventUserOffline else EventUserOnline),
                          Payload = PresencePayload userID isOnline now,
                          Timestamp = now\<rparr>
           in case json_Marshal message of
                Inl err \<Rightarrow> Return (log_Printf LogFailedMarshalPresence s1)
              | Inr data \<Rightarrow> presence_rows data rows s1))"

text \<open>
  \<open>registerClient\<close> and \<open>unregisterClient\<close> hold \<open>h.mu.Lock()\<close> from their first
  line to the deferred \<open>Unlock\<close>, which runs when they return.
\<close>

definition registerClient :: "marshal \<Rightarrow> time \<Rightarrow> Client \<Rightarrow> world \<Rightarrow> world outcome" where
  "registerClient json_Marshal now client s =
     (if mu_locked s then Blocked s
      else
        let s0 = s\<lparr>mu_locked := True\<rparr> in
        and_then
          (case Clients s0 (ID client) of
             Some existingClient \<Rightarrow> close_chan (Send existingClient) s0
           | None \<Rightarrow> Return s0)
          (\<lambda>s1.
            let s2 = s1\<lparr>Clients := (Clients s1)(ID client \<mapsto> client)\<rparr>;
                (err, s3) = Exec_update_users True now (ID client) s2;
                s4 = (if err then log_Printf LogFailedUpdateOnline s3 else s3)
            in and_then (broadcastPresence json_Marshal now (ID client) True s4)
                 (\<lambda>s5. Return
                    ((log_Printf (LogClientConnected (UniqueID client) (ID client)) s5)
                       \<lparr>mu_locked := False\<rparr>))))"

definition unregisterClient :: "marshal \<Rightarrow> time \<Rightarrow> Client \<Rightarrow> world \<Rightarrow> world outcome" where
  "unregisterClient json_Marshal now client s =
     (if mu_locked s then Blocked s
      else
        let s0 = s\<lparr>mu_locked := True\<rparr> in
        (case Clients s0 (ID client) of
           None \<Rightarrow> Return (s0\<lparr>mu_locked := False\<rparr>)
         | Some _ \<Rightarrow>
             and_then
               (close_chan (Send client) (s0\<lparr>Clients := (Clients s0)(ID client := None)\<rparr>))
               (\<lambda>s2.
                 let (err, s3) = Exec_update_users False now (ID client) s2;
                     s4 = (if err then log_Printf LogFailedUpdateOffline s3 else s3)
                 in and_then (broadcastPresence json_Marshal now (ID client) False s4)
                      (\<lambda>s5. Return
                         ((log_Printf (LogClientDisconnected (UniqueID client) (ID client)) s5)
                            \<lparr>mu_locked := False\<rparr>)))))"

text \<open>
  One pass of the loop of \<open>Run\<close> for each case of its select: the hub receives the
  oldest pending request and serves it. With nothing pending the case is not ready and
  the state stays as it is.
\<close>

definition Run_Register :: "marshal \<Rightarrow> time \<Rightarrow> world \<Rightarrow> world outcome" where
  "Run_Register json_Marshal now s =
     (case Register s of
        [] \<Rightarrow> Return s
      | client # rest \<Rightarrow> registerClient json_Marshal now client (s\<lparr>Register := rest\<rparr>))"

definition Run_Unregister :: "marshal \<Rightarrow> time \<Rightarrow> world \<Rightarrow> world outcome" where
  "Run_Unregister json_Marshal now s =
     (case Unregister s of
        [] \<Rightarrow> Return s
      | client # rest \<Rightarrow> unregisterClient json_Marshal now client (s\<lparr>Unregister := rest\<rparr>))"

definition BroadcastToUser :: "marshal \<Rightarrow> string \<Rightarrow> WSMessage \<Rightarrow> world \<Rightarrow> world outcome" where
  "BroadcastToUser json_Marshal userID message s =
     (if mu_locked s then Blocked s
      else
        (case Clients s userID of
           None \<Rightarrow> Return s
         | Some client \<Rightarrow>
             (case json_Marshal message of
                Inl err \<Rightarrow> Return (log_Printf LogFailedMarshal s)
              | Inr data \<Rightarrow>
                  and_then (select_send (Send client) data s)
                    (\<lambda>(sent, s1).
                       Return (if sent then s1 else log_Printf (LogFailedSend userID) s1)))))"

fun users_loop :: "bytes \<Rightarrow> string list \<Rightarrow> world \<Rightarrow> world outcome" where
  "users_loop data [] s = Return s"
| "users_loop data (userID # userIDs) s =
     and_then (send_if_online (LogFailedSend userID) userID data s) (users_loop data userIDs)"

definition BroadcastToUsers ::
  "marshal \<Rightarrow> string list \<Rightarrow> WSMessage \<Rightarrow> world \<Rightarrow> world outcome" where
  "BroadcastToUsers json_Marshal userIDs message s =
     (case json_Marshal message of
        Inl err \<Rightarrow> Return (log_Printf LogFailedMarshal s)
      | Inr data \<Rightarrow> (if mu_locked s then Blocked s else users_loop data userIDs s))"

fun group_rows :: "string \<Rightarrow> bytes \<Rightarrow> string list \<Rightarrow> world \<Rightarrow> world outcome" where
  "group_rows excludeUserID data [] s = Return s"
| "group_rows excludeUserID data (userID # rows) s =
     (if userID = excludeUserID then group_rows excludeUserID data rows s
      else and_then (send_if_online (LogFailedSend userID) userID data s)
             (group_rows excludeUserID data rows))"

definition BroadcastToGroup ::
  "marshal \<Rightarrow> string \<Rightarrow> WSMessage \<Rightarrow> string \<Rightarrow> world \<Rightarrow> world outcome" where
  "BroadcastToGroup json_Marshal groupID message excludeUserID s =
     (case Query_group_members groupID s of
        (None, s1) \<Rightarrow> Return (log_Printf LogFailedGetGroupMembers s1)
      | (Some rows, s1) \<Rightarrow>
          (case json_Marshal message of
             Inl err \<Rightarrow> Return (log_Printf LogFailedMarshal s1)
           | Inr data \<Rightarrow>
               (if mu_locked s1 then Blocked s1 else group_rows excludeUserID data rows s1)))"

definition IsUserOnline :: "string \<Rightarrow> world \<Rightarrow> bool outcome" where
  "IsUserOnline userID s =
     (if mu_locked s then Blocked s else Return (Clients s userID \<noteq> None))"

section \<open>Client (client.go)\<close>

text \<open>
  \<open>c.Hub.Unregister <- c\<close>. The channel is unbuffered, so the send completes when
  the goroutine of \<open>Run\<close> stands at its select. Only \<open>registerClient\<close> and
  \<open>unregisterClient\<close>, which \<open>Run\<close> calls, take \<open>mu\<close> as writers, and they hold it
  from their first line: while \<open>mu\<close> is held by a writer the hub is inside one of them
  and the sender waits.
\<close>

definition send_Unregister :: "Client \<Rightarrow> world \<Rightarrow> world outcome" where
  "send_Unregister c s =
     (if mu_locked s then Blocked s else Return (s\<lparr>Unregister := Unregister s @ [c]\<rparr>))"

definition NewClient :: "string \<Rightarrow> string \<Rightarrow> nat \<Rightarrow> world \<Rightarrow> Client \<times> world" where
  "NewClient userID uniqueID conn s =
     (\<lparr>ID = userID, UniqueID = uniqueID, Conn = conn, Send = next_chan s\<rparr>,
      s\<lparr>chans := (chans s)(next_chan s := \<lparr>buf = [], cap = 256, closed = False\<rparr>),
        next_chan := Suc (next_chan s)\<rparr>)"

definition handleTypingStart ::
  "marshal \<Rightarrow> time \<Rightarrow> Client \<Rightarrow> (string \<rightharpoonup> json) \<Rightarrow> world \<Rightarrow> world outcome" where
  "handleTypingStart json_Marshal now c pl s =
     (let chatID = string_assert (pl ''chatId'');
          groupID = string_assert (pl ''groupId'');
          typingPayload = TypingPayload (ID c) chatID groupID [];
          message = \<lparr>Type = EventTypingStart, Payload = typingPayload, Timestamp = now\<rparr>
      in if groupID \<noteq> [] then BroadcastToGroup json_Marshal groupID message (ID c) s
         else if chatID \<noteq> [] then BroadcastToUsers json_Marshal [chatID] message s
         else Return s)"

definition handleTypingStop ::
  "marshal \<Rightarrow> time \<Rightarrow> Client \<Rightarrow> (string \<rightharpoonup> json) \<Rightarrow> world \<Rightarrow> world outcome" where
  "handleTypingStop json_Marshal now c pl s =
     (let chatID = string_assert (pl ''chatId'');
          groupID = string_assert (pl ''groupId'');
          typingPayload = TypingPayload (ID c) chatID groupID [];
          message = \<lparr>Type = EventTypingStop, Payload = typingPayload, Timestamp = now\<rparr>
      in if groupID \<noteq> [] then BroadcastToGroup json_Marshal groupID message (ID c) s
         else if chatID \<noteq> [] then BroadcastToUsers json_Marshal [chatID] message s
         else Return s)"

definition handleIncomingMessage ::
  "marshal \<Rightarrow> time \<Rightarrow> Client \<Rightarrow> IncomingMessage \<Rightarrow> world \<Rightarrow> world outcome" where
  "handleIncomingMessage json_Marshal now c msg s =
     (if in_Type msg = EventTypingStart then handleTypingStart json_Marshal now c (in_Payload msg) s
      else if in_Type msg = EventTypingStop then handleTypingStop json_Marshal now c (in_Payload msg) s
      else Return (log_Printf (LogUnknownType (in_Type msg)) s))"

text \<open>
  The body of the loop of \<open>ReadPump\<close> for a frame that \<open>ReadMessage\<close> returned
  without error. Whether it ends in \<open>continue\<close> or at its last line, the loop reads the
  next frame.
\<close>

definition ReadPump_frame ::
  "marshal \<Rightarrow> unmarshal \<Rightarrow> time \<Rightarrow> Client \<Rightarrow> bytes \<Rightarrow> world \<Rightarrow> world outcome" where
  "ReadPump_frame json_Marshal json_Unmarshal now c message s =
     (case json_Unmarshal message of
        Inl err \<Rightarrow> Return (log_Printf LogFailedParse s)
      | Inr incoming \<Rightarrow> handleIncomingMessage json_Marshal now c incoming s)"

text \<open>
  What \<open>ReadMessage\<close> returns when it fails: a close frame with its code, or another
  error (the read deadline, a broken connection).
\<close>

datatype read_error = CloseError nat | OtherReadError

definition CloseGoingAway :: nat where "CloseGoingAway = 1001"
definition CloseAbnormalClosure :: nat where "CloseAbnormalClosure = 1006"

definition IsUnexpectedCloseError :: "read_error \<Rightarrow> nat list \<Rightarrow> bool" where
  "IsUnexpectedCloseError err expected =
     (case err of CloseError code \<Rightarrow> code \<notin> set expected | OtherReadError \<Rightarrow> False)"

text \<open>
  \<open>ReadPump\<close> on the frames the connection delivers, each with the instant it is
  handled at, and the error that ends the reading. The deferred function then sends the
  client on \<open>Hub.Unregister\<close> and closes the connection.
\<close>

fun ReadPump_frames ::
  "marshal \<Rightarrow> unmarshal \<Rightarrow> Client \<Rightarrow> (time \<times> bytes) list \<Rightarrow> world \<Rightarrow> world outcome" where
  "ReadPump_frames json_Marshal json_Unmarshal c [] s = Return s"
| "ReadPump_frames json_Marshal json_Unmarshal c ((now, message) # frames) s =
     and_then (ReadPump_frame json_Marshal json_Unmarshal now c message s)
       (ReadPump_frames json_Marshal json_Unmarshal c frames)"

definition ReadPump ::
  "marshal \<Rightarrow> unmarshal \<Rightarrow> Client \<Rightarrow> (time \<times> bytes) list \<Rightarrow> read_error \<Rightarrow> world
     \<Rightarrow> world outcome" where
  "ReadPump json_Marshal json_Unmarshal c frames err s =
     and_then (ReadPump_frames json_Marshal json_Unmarshal c frames s)
       (\<lambda>s1.
         let s2 = (if IsUnexpectedCloseError err [CloseGoingAway, CloseAbnormalClosure]
                   then log_Printf LogWebSocketError s1 else s1)
         in and_then (send_Unregister c s2)
              (\<lambda>s3. Return (s3\<lparr>conn_closed := (conn_closed s3)(Conn c := True)\<rparr>)))"

text \<open>\<open>SendMessage\<close> returns the error of \<open>json.Marshal\<close> or nil (\<open>None\<close>).\<close>

definition SendMessage ::
  "marshal \<Rightarrow> Client \<Rightarrow> WSMessage \<Rightarrow> world \<Rightarrow> (string option \<times> world) outcome" where
  "SendMessage json_Marshal c msg s =
     (case json_Marshal msg of
        Inl err \<Rightarrow> Return (Some err, s)
      | Inr data \<Rightarrow>
          and_then (select_send (Send c) data s)
            (\<lambda>(sent, s1).
               if sent then Return (None, s1)
               else and_then (close_chan (Send c) s1)
                      (\<lambda>s2. and_then (send_Unregister c s2) (\<lambda>s3. Return (None, s3)))))"

section \<open>Hub states and sample data\<close>

abbreviation room :: "world \<Rightarrow> nat \<Rightarrow> bool" where
  "room s a \<equiv> length (buf (chans s a)) < cap (chans s a)"

text \<open>No registered client's outbound channel is closed.\<close>

definition all_open :: "world \<Rightarrow> bool" where
  "all_open s \<longleftrightarrow> (\<forall>u c. Clients s u = Some c \<longrightarrow> \<not> closed (chans s (Send c)))"

text \<open>Clients registered under different user ids have different channels.\<close>

definition own_channels :: "world \<Rightarrow> bool" where
  "own_channels s \<longleftrightarrow>
     (\<forall>u v c d. Clients s u = Some c \<and> Clients s v = Some d \<and> Send c = Send d \<longrightarrow> u = v)"

text \<open>
  Sample data for the closed statements below: an encoder that writes the event type, a
  decoder that knows three frames, three clients (two of them for the user alice), and
  hub states over a store with the users alice and bob, both members of the group g.
\<close>

definition ex_marshal :: marshal where
  "ex_marshal m = Inr (Type m)"

definition ex_unmarshal :: unmarshal where
  "ex_unmarshal message =
     (if message = ''typing to bob'' then
        Inr \<lparr>in_Type = EventTypingStart,
             in_Payload = [''chatId'' \<mapsto> JString ''bob'', ''userId'' \<mapsto> JString ''mallory'']\<rparr>
      else if message = ''send'' then
        Inr \<lparr>in_Type = EventMessageSent, in_Payload = Map.empty\<rparr>
      else Inl ''invalid character'')"

definition ex_alice :: Client where
  "ex_alice = \<lparr>ID = ''alice'', UniqueID = ''#ALICE-001'', Conn = 0, Send = 0\<rparr>"

definition ex_bob :: Client where
  "ex_bob = \<lparr>ID = ''bob'', UniqueID = ''#BOB-002'', Conn = 1, Send = 1\<rparr>"

definition ex_alice2 :: Client where
  "ex_alice2 = \<lparr>ID = ''alice'', UniqueID = ''#ALICE-001'', Conn = 2, Send = 2\<rparr>"

definition ex_boot :: world where
  "ex_boot =
     \<lparr>Clients = Map.empty, Register = [], Unregister = [], mu_locked = False,
      chans = (\<lambda>_. \<lparr>buf = [], cap = 0, closed = False\<rparr>), next_chan = 0,
      conn_closed = (\<lambda>_. False),
      users = [''alice'' \<mapsto> \<lparr>is_online = False, last_seen = 0\<rparr>,
               ''bob'' \<mapsto> \<lparr>is_online = False, last_seen = 0\<rparr>],
      contacts = [], group_members = [(''g'', ''alice''), (''g'', ''bob'')],
      pool_errs = [], logs = []\<rparr>"

text \<open>alice and bob are registered, with empty buffers.\<close>

definition ex_hub :: world where
  "ex_hub =
     ex_boot\<lparr>Clients := [''alice'' \<mapsto> ex_alice, ''bob'' \<mapsto> ex_bob],
             chans := (\<lambda>_. \<lparr>buf = [], cap = 256, closed = False\<rparr>), next_chan := 2\<rparr>"

text \<open>As \<open>ex_hub\<close>, with 256 messages waiting in bob's buffer.\<close>

definition ex_full :: world where
  "ex_full =
     ex_hub\<lparr>chans := (chans ex_hub)
       (1 := \<lparr>buf = replicate 256 ''message_received'', cap = 256, closed = False\<rparr>)\<rparr>"

text \<open>alice and bob are contacts; only bob is registered.\<close>

definition ex_friends :: world where
  "ex_friends =
     ex_hub\<lparr>Clients := [''bob'' \<mapsto> ex_bob], contacts := [(''alice'', ''bob'')]\<rparr>"

definition ex_msg :: WSMessage where
  "ex_msg =
     \<lparr>Type = EventMessageReceived,
      Payload = MessagePayload ''m1'' ''bob'' ''alice'' ''bob'' ''hi'' ''text'' ''sent'' 3,
      Timestamp = 3\<rparr>"

lemmas ex_defs =
  ex_marshal_def ex_unmarshal_def ex_alice_def ex_bob_def ex_alice2_def ex_boot_def
  ex_hub_def ex_full_def ex_msg_def

lemmas event_defs =
  EventTypingStart_def EventTypingStop_def EventUserOnline_def EventUserOffline_def
  EventMessageReceived_def EventMessageSent_def

section \<open>Auxiliary facts\<close>

lemma unlock_unchanged: "\<not> mu_locked s \<Longrightarrow> s\<lparr>mu_locked := False\<rparr> = s"
  by (cases s) simp

lemma and_then_Return_iff:
  "and_then m f = Return y \<longleftrightarrow> (\<exists>x. m = Return x \<and> f x = Return y)"
  by (cases m) auto

lemma send_if_online_frame:
  "send_if_online lg u data s = Return s' \<Longrightarrow>
     Clients s' = Clients s \<and> mu_locked s' = mu_locked s"
  by (auto simp: send_if_online_def select_send_def log_Printf_def Let_def and_then_Return_iff
      split: option.splits if_splits)

lemma presence_rows_frame:
  "presence_rows data rows s = Return s' \<Longrightarrow>
     Clients s' = Clients s \<and> mu_locked s' = mu_locked s"
proof (induction rows arbitrary: s)
  case Nil
  then show ?case by simp
next
  case (Cons r rows)
  then show ?case
    by (auto simp: and_then_Return_iff split: if_splits dest!: send_if_online_frame)
qed

lemma broadcastPresence_frame:
  "broadcastPresence mar now u b s = Return s' \<Longrightarrow>
     Clients s' = Clients s \<and> mu_locked s' = mu_locked s"
  by (auto simp: broadcastPresence_def Query_contacts_def log_Printf_def Let_def
      split: if_splits sum.splits dest!: presence_rows_frame)

lemma unregisterClient_Return:
  assumes "unregisterClient mar now c s = Return s'"
  shows "\<not> mu_locked s' \<and> Clients s' (ID c) = None"
  using assms
  by (auto simp: unregisterClient_def Let_def and_then_Return_iff close_chan_def
      Exec_update_users_def log_Printf_def
      split: if_splits option.splits dest!: broadcastPresence_frame)

text \<open>
  Under the writer's lock the loop of \<open>broadcastPresence\<close> cannot take its read lock:
  it ends at once on no rows and blocks at the first row otherwise.
\<close>

lemma presence_rows_locked:
  "mu_locked s \<Longrightarrow> presence_rows data rows s = (if rows = [] then Return s else Blocked s)"
  by (cases rows) simp_all

lemma broadcastPresence_locked:
  assumes "mu_locked s"
  shows "\<exists>s'. (broadcastPresence mar now u b s = Return s' \<or>
               broadcastPresence mar now u b s = Blocked s') \<and>
          Clients s' = Clients s \<and> chans s' = chans s \<and> mu_locked s'"
  using assms
  by (auto simp: broadcastPresence_def Query_contacts_def log_Printf_def Let_def
      presence_rows_locked split: sum.splits)

lemmas hub_defs =
  registerClient_def unregisterClient_def Let_def close_chan_def select_send_def
  Exec_update_users_def next_err_def broadcastPresence_def Query_contacts_def
  Query_group_members_def log_Printf_def

text \<open>
  What one pass of a broadcast loop does to the channels when no registered client's
  channel is closed: the data goes to the end of the recipient's buffer when the
  recipient is registered and the buffer has room, and nothing else changes.
\<close>

lemma send_if_online_open:
  assumes "\<forall>c. Clients s u = Some c \<longrightarrow> \<not> closed (chans s (Send c))"
  shows "\<exists>s'. send_if_online lg u data s = Return s' \<and> Clients s' = Clients s \<and>
     (\<forall>a. closed (chans s' a) = closed (chans s a) \<and> cap (chans s' a) = cap (chans s a) \<and>
          buf (chans s' a) = buf (chans s a) @
            (if \<exists>c. Clients s u = Some c \<and> Send c = a \<and> room s a then [data] else []))"
  using assms
  by (auto simp: send_if_online_def select_send_def log_Printf_def Let_def split: option.splits)

lemma group_rows_effect:
  assumes "all_open s" and "own_channels s" and "distinct rows"
  shows "\<exists>s'. group_rows S data rows s = Return s' \<and> Clients s' = Clients s \<and>
     (\<forall>a. closed (chans s' a) = closed (chans s a) \<and> cap (chans s' a) = cap (chans s a) \<and>
          buf (chans s' a) = buf (chans s a) @
            (if \<exists>u c. u \<in> set rows \<and> u \<noteq> S \<and> Clients s u = Some c \<and> Send c = a \<and> room s a
             then [data] else []))"
  using assms
proof (induction rows arbitrary: s)
  case Nil
  then show ?case by simp
next
  case (Cons u rows)
  have dist: "distinct rows" and notin: "u \<notin> set rows" using Cons.prems(3) by auto
  show ?case
  proof (cases "u = S")
    case True
    from Cons.IH[OF Cons.prems(1,2) dist] obtain s' where
      s': "group_rows S data rows s = Return s'" "Clients s' = Clients s"
        "\<forall>a. closed (chans s' a) = closed (chans s a) \<and> cap (chans s' a) = cap (chans s a) \<and>
          buf (chans s' a) = buf (chans s a) @
            (if \<exists>u c. u \<in> set rows \<and> u \<noteq> S \<and> Clients s u = Some c \<and> Send c = a \<and> room s a
             then [data] else [])"
      by blast
    have "\<And>a. (\<exists>w c. w \<in> set (u # rows) \<and> w \<noteq> S \<and> Clients s w = Some c \<and> Send c = a \<and> room s a)
        \<longleftrightarrow> (\<exists>w c. w \<in> set rows \<and> w \<noteq> S \<and> Clients s w = Some c \<and> Send c = a \<and> room s a)"
      using True by auto
    with s' True show ?thesis by simp
  next
    case False
    have "\<forall>c. Clients s u = Some c \<longrightarrow> \<not> closed (chans s (Send c))"
      using Cons.prems(1) by (simp add: all_open_def)
    from send_if_online_open[OF this, of "LogFailedSend u" data] obtain s1 where
      s1: "send_if_online (LogFailedSend u) u data s = Return s1" "Clients s1 = Clients s"
        "\<And>a. closed (chans s1 a) = closed (chans s a)"
        "\<And>a. cap (chans s1 a) = cap (chans s a)"
        "\<And>a. buf (chans s1 a) = buf (chans s a) @
            (if \<exists>c. Clients s u = Some c \<and> Send c = a \<and> room s a then [data] else [])"
      by blast
    have o1: "all_open s1" using Cons.prems(1) s1(2,3) by (simp add: all_open_def)
    have i1: "own_channels s1" using Cons.prems(2) s1(2) by (simp add: own_channels_def)
    from Cons.IH[OF o1 i1 dist] obtain s' where
      s': "group_rows S data rows s1 = Return s'" "Clients s' = Clients s1"
        "\<And>a. closed (chans s' a) = closed (chans s1 a)"
        "\<And>a. cap (chans s' a) = cap (chans s1 a)"
        "\<And>a. buf (chans s' a) = buf (chans s1 a) @
            (if \<exists>w c. w \<in> set rows \<and> w \<noteq> S \<and> Clients s1 w = Some c \<and> Send c = a \<and> room s1 a
             then [data] else [])"
      by blast
    have run: "group_rows S data (u # rows) s = Return s'"
      using False s1(1) s'(1) by simp
    have bufs: "buf (chans s' a) = buf (chans s a) @
            (if \<exists>w c. w \<in> set (u # rows) \<and> w \<noteq> S \<and> Clients s w = Some c \<and> Send c = a \<and> room s a
             then [data] else [])" for a
    proof (cases "\<exists>c. Clients s u = Some c \<and> Send c = a")
      case True
      then obtain c where c: "Clients s u = Some c" "Send c = a" by blast
      have none: "\<not> (\<exists>w d. w \<in> set rows \<and> Clients s w = Some d \<and> Send d = a)"
      proof
        assume "\<exists>w d. w \<in> set rows \<and> Clients s w = Some d \<and> Send d = a"
        then obtain w d where w: "w \<in> set rows" "Clients s w = Some d" "Send d = a" by blast
        with c Cons.prems(2) have "u = w" unfolding own_channels_def by blast
        with notin w(1) show False by simp
      qed
      show ?thesis
      proof (cases "room s a")
        case True
        with c none s1(2) s1(5)[of a] s'(5)[of a] False show ?thesis by auto
      next
        case False
        with c none s1(2) s1(5)[of a] s'(5)[of a] show ?thesis by auto
      qed
    next
      case False
      then have same: "buf (chans s1 a) = buf (chans s a)" using s1(5)[of a] by auto
      then have "room s1 a = room s a" using s1(4)[of a] by simp
      with same s'(5)[of a] s1(2) False show ?thesis by auto
    qed
    show ?thesis
      using run s1(2) s'(2) s1(3,4) s'(3,4) bufs by simp
  qed
qed

lemma distinct_group_rows:
  "distinct xs \<Longrightarrow> distinct (map snd (filter (\<lambda>r. fst r = g) xs))"
  by (induction xs) (auto simp: image_iff)

lemma set_group_rows:
  "u \<in> set (map snd (filter (\<lambda>r. fst r = g) xs)) \<longleftrightarrow> (g, u) \<in> set xs"
  by (induction xs) auto


section \<open>Unregistering a client that a newer one has replaced\<close>

text \<open>
  \<open>unregisterClient\<close> never compares the entry it finds with the client it was
  given. Whatever client \<open>d\<close> the map holds under the id: when the channel of the
  client given is closed already the call panics, and when it is open the entry of
  \<open>d\<close> is removed.
\<close>

lemma unregisterClient_stale_panics:
  assumes "\<not> mu_locked s" and "Clients s (ID c) = Some d" and "closed (chans s (Send c))"
  shows "unregisterClient mar now c s = Panic CloseOfClosedChannel"
  using assms by (simp add: unregisterClient_def close_chan_def Let_def)

lemma unregisterClient_removes_any_entry:
  assumes "\<not> mu_locked s" and "Clients s (ID c) = Some d" and "\<not> closed (chans s (Send c))"
  shows "\<exists>s'. (unregisterClient mar now c s = Return s' \<or>
               unregisterClient mar now c s = Blocked s') \<and>
          Clients s' = (Clients s)(ID c := None)"
proof -
  let ?s2 = "s\<lparr>mu_locked := True, Clients := (Clients s)(ID c := None),
       chans := (chans s)(Send c := (chans s (Send c))\<lparr>closed := True\<rparr>)\<rparr>"
  obtain err s3 where ex: "Exec_update_users False now (ID c) ?s2 = (err, s3)"
    by (cases "Exec_update_users False now (ID c) ?s2")
  define s4 where "s4 = (if err then log_Printf LogFailedUpdateOffline s3 else s3)"
  have s4: "mu_locked s4" "Clients s4 = (Clients s)(ID c := None)"
    using ex by (auto simp: s4_def Exec_update_users_def log_Printf_def Let_def
        split: if_splits option.splits)
  have unreg: "unregisterClient mar now c s =
      and_then (broadcastPresence mar now (ID c) False s4)
        (\<lambda>s5. Return ((log_Printf (LogClientDisconnected (UniqueID c) (ID c)) s5)
                       \<lparr>mu_locked := False\<rparr>))"
    using assms ex by (simp add: unregisterClient_def close_chan_def Let_def s4_def)
  from broadcastPresence_locked[OF s4(1), of mar now "ID c" False]
  obtain s5 where s5: "broadcastPresence mar now (ID c) False s4 = Return s5 \<or>
      broadcastPresence mar now (ID c) False s4 = Blocked s5" "Clients s5 = Clients s4" by blast
  from s5(1) show ?thesis
  proof
    assume "broadcastPresence mar now (ID c) False s4 = Return s5"
    with unreg s5(2) s4(2) show ?thesis by (auto simp: log_Printf_def)
  next
    assume "broadcastPresence mar now (ID c) False s4 = Blocked s5"
    with unreg s5(2) s4(2) show ?thesis by auto
  qed
qed

text \<open>
  C1. The claim: \<open>unregisterClient\<close> removes the entry under the client's user id only
  when the entry is that very client. The code asks only whether the map has an entry
  under \<open>client.ID\<close>. Here alice's client \<open>ex_alice\<close> is registered and a second client
  \<open>ex_alice2\<close> registers for her: the registration closes the channel of \<open>ex_alice\<close>
  and puts \<open>ex_alice2\<close> in the map. When the read loop of \<open>ex_alice\<close> then has the hub
  unregister it, the hub finds the entry of \<open>ex_alice2\<close>, deletes it and closes the
  channel of \<open>ex_alice\<close> a second time, which panics. The last conjunct shows the same
  test on a client whose channel is still open: unregistering \<open>ex_alice2\<close>, which is not
  in the map, removes the entry of \<open>ex_alice\<close> and marks alice offline.
\<close>

theorem stale_unregister_panics:
  "Clients ex_hub ''alice'' = Some ex_alice \<and> ex_alice2 \<noteq> ex_alice \<and>
   registerClient ex_marshal 2 ex_alice2 ex_hub =
     Return (ex_hub\<lparr>Clients := (Clients ex_hub)(''alice'' \<mapsto> ex_alice2),
               chans := (chans ex_hub)(Send ex_alice := \<lparr>buf = [], cap = 256, closed = True\<rparr>),
               users := (users ex_hub)(''alice'' \<mapsto> \<lparr>is_online = True, last_seen = 2\<rparr>),
               logs := [LogClientConnected ''#ALICE-001'' ''alice'']\<rparr>) \<and>
   unregisterClient ex_marshal 3 ex_alice
     (ex_hub\<lparr>Clients := (Clients ex_hub)(''alice'' \<mapsto> ex_alice2),
               chans := (chans ex_hub)(Send ex_alice := \<lparr>buf = [], cap = 256, closed = True\<rparr>),
               users := (users ex_hub)(''alice'' \<mapsto> \<lparr>is_online = True, last_seen = 2\<rparr>),
               logs := [LogClientConnected ''#ALICE-001'' ''alice'']\<rparr>)
     = Panic CloseOfClosedChannel \<and>
   unregisterClient ex_marshal 3 ex_alice2 ex_hub =
     Return (ex_hub\<lparr>Clients := (Clients ex_hub)(''alice'' := None),
               chans := (chans ex_hub)(Send ex_alice2 := \<lparr>buf = [], cap = 256, closed = True\<rparr>),
               users := (users ex_hub)(''alice'' \<mapsto> \<lparr>is_online = False, last_seen = 3\<rparr>),
               logs := [LogClientDisconnected ''#ALICE-001'' ''alice'']\<rparr>)"
  by (simp add: hub_defs presence_rows_locked ex_defs event_defs)

section \<open>Overflow of a client's own buffer\<close>

text \<open>
  For every client with an entry under its id, an open channel and a full buffer:
  \<open>SendMessage\<close> returns nil with one request pending, and serving the request
  panics.
\<close>

lemma overflow_then_unregister_panics:
  assumes "\<not> mu_locked s" and "Clients s (ID c) = Some d" and "Unregister s = []"
    and "\<not> closed (chans s (Send c))" and "\<not> room s (Send c)" and "mar msg = Inr data"
  shows "\<exists>s1. SendMessage mar c msg s = Return (None, s1) \<and> Unregister s1 = [c] \<and>
           Run_Unregister mar now s1 = Panic CloseOfClosedChannel"
  using assms
  by (simp add: SendMessage_def select_send_def close_chan_def send_Unregister_def
      Run_Unregister_def unregisterClient_def Let_def)

text \<open>
  C2. The claim: after \<open>SendMessage\<close> on a full buffer and the hub's handling of the
  unregister request, the buffer has been closed exactly once. \<open>NewClient\<close> makes the
  buffer with capacity 256. With 256 messages waiting in the buffer of the registered
  client \<open>ex_bob\<close>, \<open>SendMessage\<close> closes the channel and leaves one request on
  \<open>Hub.Unregister\<close>; the hub, serving that request, finds bob's entry and closes the
  same channel again, which panics.
\<close>

theorem overflow_closes_twice:
  "cap (chans (snd (NewClient ''bob'' ''#BOB-002'' 1 ex_boot))
         (Send (fst (NewClient ''bob'' ''#BOB-002'' 1 ex_boot)))) = 256 \<and>
   Clients ex_full (ID ex_bob) = Some ex_bob \<and>
   buf (chans ex_full (Send ex_bob)) = replicate 256 ''message_received'' \<and>
   cap (chans ex_full (Send ex_bob)) = 256 \<and>
   SendMessage ex_marshal ex_bob ex_msg ex_full =
     Return (None, ex_full\<lparr>chans := (chans ex_full)
                    (Send ex_bob := (chans ex_full (Send ex_bob))\<lparr>closed := True\<rparr>),
               Unregister := [ex_bob]\<rparr>) \<and>
   Run_Unregister ex_marshal 9
     (ex_full\<lparr>chans := (chans ex_full)
                    (Send ex_bob := (chans ex_full (Send ex_bob))\<lparr>closed := True\<rparr>),
               Unregister := [ex_bob]\<rparr>) = Panic CloseOfClosedChannel"
  by (simp add: NewClient_def SendMessage_def send_Unregister_def Run_Unregister_def
      hub_defs ex_defs event_defs)

section \<open>A second connection for the same user\<close>

text \<open>
  C3. When a client \<open>c1\<close> with an open channel is registered under a user id and a
  client \<open>c2\<close> with that user id is registered, the map afterwards holds \<open>c2\<close> under
  the id, every other entry is as before, and the channel of \<open>c1\<close> is closed. The call
  returns when the user has no contact rows (or the contact query or the encoding
  fails); with contact rows it blocks in \<open>broadcastPresence\<close>, after the map and the
  channel have changed as stated.
\<close>

theorem register_second_connection:
  assumes "\<not> mu_locked s"
    and "Clients s (ID c2) = Some c1"
    and "\<not> closed (chans s (Send c1))"
  shows "\<exists>s'. (registerClient mar now c2 s = Return s' \<or>
               registerClient mar now c2 s = Blocked s') \<and>
          Clients s' = (Clients s)(ID c2 \<mapsto> c2) \<and>
          closed (chans s' (Send c1))"
proof -
  let ?s2 = "s\<lparr>mu_locked := True,
       chans := (chans s)(Send c1 := (chans s (Send c1))\<lparr>closed := True\<rparr>),
       Clients := (Clients s)(ID c2 \<mapsto> c2)\<rparr>"
  obtain err s3 where ex: "Exec_update_users True now (ID c2) ?s2 = (err, s3)"
    by (cases "Exec_update_users True now (ID c2) ?s2")
  define s4 where "s4 = (if err then log_Printf LogFailedUpdateOnline s3 else s3)"
  have s4: "mu_locked s4" "Clients s4 = (Clients s)(ID c2 \<mapsto> c2)"
    "chans s4 = (chans s)(Send c1 := (chans s (Send c1))\<lparr>closed := True\<rparr>)"
    using ex by (auto simp: s4_def Exec_update_users_def log_Printf_def Let_def
        split: if_splits option.splits)
  from broadcastPresence_locked[OF s4(1), of mar now "ID c2" True]
  obtain s5 where s5: "broadcastPresence mar now (ID c2) True s4 = Return s5 \<or>
      broadcastPresence mar now (ID c2) True s4 = Blocked s5"
    "Clients s5 = Clients s4" "chans s5 = chans s4" by blast
  have reg: "registerClient mar now c2 s =
      and_then (broadcastPresence mar now (ID c2) True s4)
        (\<lambda>s5. Return ((log_Printf (LogClientConnected (UniqueID c2) (ID c2)) s5)
                       \<lparr>mu_locked := False\<rparr>))"
    using assms ex by (simp add: registerClient_def close_chan_def Let_def s4_def)
  from s5(1) show ?thesis
  proof
    assume "broadcastPresence mar now (ID c2) True s4 = Return s5"
    then show ?thesis using reg s5 s4 by (simp add: log_Printf_def)
  next
    assume "broadcastPresence mar now (ID c2) True s4 = Blocked s5"
    then show ?thesis using reg s5 s4 by simp
  qed
qed

theorem register_second_connection_witness:
  "\<not> mu_locked ex_hub \<and> Clients ex_hub (ID ex_alice2) = Some ex_alice \<and>
   \<not> closed (chans ex_hub (Send ex_alice)) \<and>
   (\<exists>s'. (registerClient ex_marshal 2 ex_alice2 ex_hub = Return s' \<or>
          registerClient ex_marshal 2 ex_alice2 ex_hub = Blocked s') \<and>
     Clients s' = (Clients ex_hub)(ID ex_alice2 \<mapsto> ex_alice2) \<and>
     closed (chans s' (Send ex_alice)))"
proof -
  have h: "\<not> mu_locked ex_hub" "Clients ex_hub (ID ex_alice2) = Some ex_alice"
    "\<not> closed (chans ex_hub (Send ex_alice))"
    by (simp_all add: ex_defs)
  from register_second_connection[OF h, of ex_marshal 2] h show ?thesis by simp
qed

section \<open>BroadcastToUser\<close>

text \<open>
  C4 as stated fails: bob is registered, his buffer is full, and \<open>BroadcastToUser\<close>
  returns with nothing added to any buffer; the state differs only by the log line of
  the select's default case.
\<close>

theorem BroadcastToUser_full_counterexample:
  "Clients ex_full ''bob'' = Some ex_bob \<and>
   ex_marshal ex_msg = Inr ''message_received'' \<and>
   BroadcastToUser ex_marshal ''bob'' ex_msg ex_full =
     Return (ex_full\<lparr>logs := [LogFailedSend ''bob'']\<rparr>)"
  by (simp add: BroadcastToUser_def hub_defs ex_defs event_defs)

text \<open>
  C4, amended. With \<open>mu\<close> free and the channel of the user's client open:
  \<open>BroadcastToUser\<close> returns, and it puts the encoded event at the end of the user's
  buffer exactly when the user is in the map, the event encodes and the buffer has
  room. When the user is registered and the encoding fails or the buffer is full, only
  a log line is added. When the user is not in the map the state is unchanged.
\<close>

theorem BroadcastToUser_delivery:
  assumes "\<not> mu_locked s"
  shows
   "(\<forall>c data. Clients s U = Some c \<and> \<not> closed (chans s (Send c)) \<and>
        mar e = Inr data \<and> room s (Send c) \<longrightarrow>
      BroadcastToUser mar U e s =
        Return (s\<lparr>chans := (chans s)(Send c :=
                  (chans s (Send c))\<lparr>buf := buf (chans s (Send c)) @ [data]\<rparr>)\<rparr>)) \<and>
    (\<forall>c. Clients s U = Some c \<and> \<not> closed (chans s (Send c)) \<and>
        ((\<exists>err. mar e = Inl err) \<or> \<not> room s (Send c)) \<longrightarrow>
      (\<exists>l. BroadcastToUser mar U e s = Return (s\<lparr>logs := logs s @ [l]\<rparr>))) \<and>
    (Clients s U = None \<longrightarrow> BroadcastToUser mar U e s = Return s)"
  using assms
  by (cases "mar e")
     (auto simp: BroadcastToUser_def select_send_def log_Printf_def Let_def)

theorem BroadcastToUser_delivery_witness:
  "\<not> mu_locked ex_hub \<and> Clients ex_hub ''bob'' = Some ex_bob \<and>
   \<not> closed (chans ex_hub (Send ex_bob)) \<and> room ex_hub (Send ex_bob) \<and>
   ex_marshal ex_msg = Inr ''message_received'' \<and>
   BroadcastToUser ex_marshal ''bob'' ex_msg ex_hub =
     Return (ex_hub\<lparr>chans := (chans ex_hub)(Send ex_bob :=
               (chans ex_hub (Send ex_bob))\<lparr>buf := [''message_received'']\<rparr>)\<rparr>) \<and>
   Clients ex_hub ''carol'' = None \<and>
   BroadcastToUser ex_marshal ''carol'' ex_msg ex_hub = Return ex_hub"
proof -
  have h: "\<not> mu_locked ex_hub" "Clients ex_hub ''bob'' = Some ex_bob"
    "\<not> closed (chans ex_hub (Send ex_bob))" "room ex_hub (Send ex_bob)"
    "ex_marshal ex_msg = Inr ''message_received''" "Clients ex_hub ''carol'' = None"
    "buf (chans ex_hub (Send ex_bob)) = []"
    by (simp_all add: ex_defs event_defs)
  from BroadcastToUser_delivery[OF h(1), of "''bob''" ex_marshal ex_msg]
       BroadcastToUser_delivery[OF h(1), of "''carol''" ex_marshal ex_msg] h
  show ?thesis by simp
qed

section \<open>Unregistering twice\<close>

text \<open>
  C5. When a call of \<open>unregisterClient\<close> for a client has returned, a second call for
  the same client (at any instant) finds no entry under the client's user id and
  returns the state it was given: the map, every channel, the users table and the log
  stay as the first call left them.
\<close>

theorem unregister_twice:
  assumes "unregisterClient mar now c s = Return s'"
  shows "unregisterClient mar now' c s' = Return s' \<and> Clients s' (ID c) = None"
  using unregisterClient_Return[OF assms]
  by (simp add: unregisterClient_def Let_def unlock_unchanged)

theorem unregister_twice_witness:
  "\<exists>s'. unregisterClient ex_marshal 5 ex_alice ex_hub = Return s' \<and>
        unregisterClient ex_marshal 6 ex_alice s' = Return s' \<and>
        Clients s' (ID ex_alice) = None \<and>
        Clients ex_hub (ID ex_alice) = Some ex_alice"
proof -
  have "\<exists>s'. unregisterClient ex_marshal 5 ex_alice ex_hub = Return s'"
    by (simp add: hub_defs ex_defs event_defs)
  then obtain s' where s': "unregisterClient ex_marshal 5 ex_alice ex_hub = Return s'" ..
  from unregister_twice[OF s', of 6] s' show ?thesis by (simp add: ex_defs)
qed

section \<open>BroadcastToGroup\<close>

text \<open>
  C6 as stated fails: bob is a registered member of the group g and is not the excluded
  user, his buffer is full, and \<open>BroadcastToGroup\<close> returns with nothing added to his
  buffer.
\<close>

theorem BroadcastToGroup_full_counterexample:
  "(''g'', ''bob'') \<in> set (group_members ex_full) \<and>
   Clients ex_full ''bob'' = Some ex_bob \<and> ''bob'' \<noteq> ''alice'' \<and>
   ex_marshal ex_msg = Inr ''message_received'' \<and>
   BroadcastToGroup ex_marshal ''g'' ex_msg ''alice'' ex_full =
     Return (ex_full\<lparr>logs := [LogFailedSend ''bob'']\<rparr>)"
  by (simp add: BroadcastToGroup_def send_if_online_def hub_defs ex_defs event_defs)

text \<open>
  C6, amended. With \<open>mu\<close> free, a member query that succeeds, an event that encodes,
  every registered client's channel open and its own, and no row twice in
  \<open>group_members\<close> (its primary key is (group_id, user_id)): \<open>BroadcastToGroup\<close>
  returns; the buffer of a registered user gains the encoded event, once, when the user
  is a member of the group, is not the excluded user and the buffer has room, and stays
  as it was otherwise; and the buffer of every channel that belongs to no registered
  client stays as it was.
\<close>

theorem BroadcastToGroup_delivery:
  assumes "\<not> mu_locked s" and "\<not> next_err (pool_errs s)" and "mar e = Inr data"
    and "all_open s" and "own_channels s" and "distinct (group_members s)"
  shows "\<exists>s'. BroadcastToGroup mar G e S s = Return s' \<and> Clients s' = Clients s \<and>
     (\<forall>u c. Clients s u = Some c \<longrightarrow>
        buf (chans s' (Send c)) = buf (chans s (Send c)) @
          (if (G, u) \<in> set (group_members s) \<and> u \<noteq> S \<and> room s (Send c) then [data] else [])) \<and>
     (\<forall>a. (\<forall>u c. Clients s u = Some c \<longrightarrow> Send c \<noteq> a) \<longrightarrow> buf (chans s' a) = buf (chans s a))"
proof -
  let ?rows = "map snd (filter (\<lambda>r. fst r = G) (group_members s))"
  let ?s1 = "s\<lparr>pool_errs := tl (pool_errs s)\<rparr>"
  have o: "all_open ?s1" and i: "own_channels ?s1"
    using assms(4,5) by (simp_all add: all_open_def own_channels_def)
  from group_rows_effect[OF o i distinct_group_rows[OF assms(6), where g=G], where S=S and data=data]
  obtain s' where s': "group_rows S data ?rows ?s1 = Return s'" "Clients s' = Clients s"
    "\<And>a. buf (chans s' a) = buf (chans s a) @
            (if \<exists>u c. u \<in> set ?rows \<and> u \<noteq> S \<and> Clients s u = Some c \<and> Send c = a \<and> room s a
             then [data] else [])"
    by auto
  have run: "BroadcastToGroup mar G e S s = Return s'"
    using assms(1,2,3) s'(1) by (simp add: BroadcastToGroup_def Query_group_members_def Let_def)
  have reg: "buf (chans s' (Send c)) = buf (chans s (Send c)) @
          (if (G, u) \<in> set (group_members s) \<and> u \<noteq> S \<and> room s (Send c) then [data] else [])"
    if "Clients s u = Some c" for u c
  proof -
    have "(\<exists>w d. w \<in> set ?rows \<and> w \<noteq> S \<and> Clients s w = Some d \<and> Send d = Send c \<and> room s (Send c))
       \<longleftrightarrow> ((G, u) \<in> set (group_members s) \<and> u \<noteq> S \<and> room s (Send c))"
      using that assms(5) unfolding own_channels_def set_group_rows by blast
    then show ?thesis using s'(3)[of "Send c"] by simp
  qed
  have unreg: "buf (chans s' a) = buf (chans s a)"
    if "\<forall>u c. Clients s u = Some c \<longrightarrow> Send c \<noteq> a" for a
    using that s'(3)[of a] by auto
  show ?thesis using run s'(2) reg unreg by blast
qed

theorem BroadcastToGroup_delivery_witness:
  "\<not> mu_locked ex_hub \<and> \<not> next_err (pool_errs ex_hub) \<and>
   ex_marshal ex_msg = Inr ''message_received'' \<and>
   all_open ex_hub \<and> own_channels ex_hub \<and> distinct (group_members ex_hub) \<and>
   Clients ex_hub ''alice'' = Some ex_alice \<and> Clients ex_hub ''bob'' = Some ex_bob \<and>
   (\<exists>s'. BroadcastToGroup ex_marshal ''g'' ex_msg ''alice'' ex_hub = Return s' \<and>
      buf (chans s' (Send ex_bob)) = [''message_received''] \<and>
      buf (chans s' (Send ex_alice)) = [])"
proof -
  have h: "\<not> mu_locked ex_hub" "\<not> next_err (pool_errs ex_hub)"
    "ex_marshal ex_msg = Inr ''message_received''"
    by (simp_all add: ex_defs event_defs next_err_def)
  have o: "all_open ex_hub" by (simp add: all_open_def ex_defs)
  have i: "own_channels ex_hub"
    by (auto simp: own_channels_def ex_defs split: if_splits)
  have d: "distinct (group_members ex_hub)" by (simp add: ex_defs)
  have r: "Clients ex_hub ''alice'' = Some ex_alice" "Clients ex_hub ''bob'' = Some ex_bob"
    "(''g'', ''alice'') \<in> set (group_members ex_hub)"
    "(''g'', ''bob'') \<in> set (group_members ex_hub)"
    "room ex_hub (Send ex_bob)" "buf (chans ex_hub (Send ex_bob)) = []"
    "buf (chans ex_hub (Send ex_alice)) = []"
    by (simp_all add: ex_defs)
  from BroadcastToGroup_delivery[where s=ex_hub and mar=ex_marshal and e=ex_msg
      and data="''message_received''" and G="''g''" and S="''alice''",
      OF h(1) h(2) h(3) o i d]
  obtain s' where s': "BroadcastToGroup ex_marshal ''g'' ex_msg ''alice'' ex_hub = Return s'"
    "\<forall>u c. Clients ex_hub u = Some c \<longrightarrow>
        buf (chans s' (Send c)) = buf (chans ex_hub (Send c)) @
          (if (''g'', u) \<in> set (group_members ex_hub) \<and> u \<noteq> ''alice'' \<and> room ex_hub (Send c)
           then [''message_received''] else [])"
    by blast
  from s'(2) r have "buf (chans s' (Send ex_bob)) = [''message_received'']"
    "buf (chans s' (Send ex_alice)) = []"
    by auto
  with h o i d r s'(1) show ?thesis by blast
qed

section \<open>Inbound frames\<close>

text \<open>
  C7. The body of the read loop calls a typing handler only for a frame that decodes to
  the type \<open>typing_start\<close> or \<open>typing_stop\<close>. For a frame that does not decode, and
  for a decoded frame of any other type, it returns the state with one more log line
  and nothing else changed (the map, the channels, the connections and the pending
  unregister requests are as before), and the loop goes on with the next frame.
\<close>

theorem inbound_frames_routing:
  "(\<forall>err. unm message = Inl err \<longrightarrow>
      ReadPump_frame mar unm now c message s = Return (s\<lparr>logs := logs s @ [LogFailedParse]\<rparr>) \<and>
      ReadPump_frames mar unm c ((now, message) # frames) s =
        ReadPump_frames mar unm c frames (s\<lparr>logs := logs s @ [LogFailedParse]\<rparr>)) \<and>
   (\<forall>incoming. unm message = Inr incoming \<and> in_Type incoming \<noteq> EventTypingStart \<and>
        in_Type incoming \<noteq> EventTypingStop \<longrightarrow>
      ReadPump_frame mar unm now c message s =
        Return (s\<lparr>logs := logs s @ [LogUnknownType (in_Type incoming)]\<rparr>) \<and>
      ReadPump_frames mar unm c ((now, message) # frames) s =
        ReadPump_frames mar unm c frames
          (s\<lparr>logs := logs s @ [LogUnknownType (in_Type incoming)]\<rparr>)) \<and>
   (\<forall>incoming. unm message = Inr incoming \<and> in_Type incoming = EventTypingStart \<longrightarrow>
      ReadPump_frame mar unm now c message s =
        handleTypingStart mar now c (in_Payload incoming) s) \<and>
   (\<forall>incoming. unm message = Inr incoming \<and> in_Type incoming = EventTypingStop \<longrightarrow>
      ReadPump_frame mar unm now c message s =
        handleTypingStop mar now c (in_Payload incoming) s)"
  by (cases "unm message")
     (auto simp: ReadPump_frame_def handleIncomingMessage_def log_Printf_def event_defs)

theorem inbound_frames_routing_witness:
  "ex_unmarshal ''{'' = Inl ''invalid character'' \<and>
   ReadPump_frame ex_marshal ex_unmarshal 4 ex_alice ''{'' ex_hub =
     Return (ex_hub\<lparr>logs := [LogFailedParse]\<rparr>) \<and>
   ex_unmarshal ''send'' = Inr \<lparr>in_Type = EventMessageSent, in_Payload = Map.empty\<rparr> \<and>
   EventMessageSent \<noteq> EventTypingStart \<and> EventMessageSent \<noteq> EventTypingStop \<and>
   ReadPump_frame ex_marshal ex_unmarshal 4 ex_alice ''send'' ex_hub =
     Return (ex_hub\<lparr>logs := [LogUnknownType EventMessageSent]\<rparr>) \<and>
   ReadPump_frame ex_marshal ex_unmarshal 4 ex_alice ''typing to bob'' ex_hub =
     handleTypingStart ex_marshal 4 ex_alice
       [''chatId'' \<mapsto> JString ''bob'', ''userId'' \<mapsto> JString ''mallory''] ex_hub"
proof -
  have u: "ex_unmarshal ''{'' = Inl ''invalid character''"
    "ex_unmarshal ''send'' = Inr \<lparr>in_Type = EventMessageSent, in_Payload = Map.empty\<rparr>"
    "ex_unmarshal ''typing to bob'' = Inr \<lparr>in_Type = EventTypingStart,
       in_Payload = [''chatId'' \<mapsto> JString ''bob'', ''userId'' \<mapsto> JString ''mallory'']\<rparr>"
    by (simp_all add: ex_unmarshal_def)
  have t: "EventMessageSent \<noteq> EventTypingStart" "EventMessageSent \<noteq> EventTypingStop"
    by (simp_all add: event_defs)
  have l: "logs ex_hub = []" by (simp add: ex_defs)
  from inbound_frames_routing[of ex_unmarshal "''{''" ex_marshal 4 ex_alice ex_hub "[]"]
       inbound_frames_routing[of ex_unmarshal "''send''" ex_marshal 4 ex_alice ex_hub "[]"]
       inbound_frames_routing[of ex_unmarshal "''typing to bob''" ex_marshal 4 ex_alice ex_hub "[]"]
       u t l
  show ?thesis by simp
qed

section \<open>Presence on register and unregister\<close>

text \<open>
  However \<open>registerClient\<close> and \<open>unregisterClient\<close> end, returning or blocked, every
  buffer holds what it held before: no presence event is ever delivered. And
  \<open>registerClient\<close> blocks whenever the user has a contact row, the contact query
  succeeds and the presence message encodes.
\<close>

lemma registerClient_sends_nothing:
  assumes "registerClient mar now c s = Return s' \<or> registerClient mar now c s = Blocked s'"
  shows "buf (chans s' a) = buf (chans s a)"
proof (cases "mu_locked s")
  case True
  with assms show ?thesis by (simp add: registerClient_def)
next
  case False
  let ?s0 = "s\<lparr>mu_locked := True\<rparr>"
  let ?pre = "case Clients ?s0 (ID c) of
             Some existingClient \<Rightarrow> close_chan (Send existingClient) ?s0
           | None \<Rightarrow> Return ?s0"
  show ?thesis
  proof (cases ?pre)
    case (Return s1)
    then have s1: "mu_locked s1" "buf (chans s1 a) = buf (chans s a)"
      by (auto simp: close_chan_def split: option.splits if_splits)
    let ?s2 = "s1\<lparr>Clients := (Clients s1)(ID c \<mapsto> c)\<rparr>"
    obtain err s3 where ex: "Exec_update_users True now (ID c) ?s2 = (err, s3)"
      by (cases "Exec_update_users True now (ID c) ?s2")
    define s4 where "s4 = (if err then log_Printf LogFailedUpdateOnline s3 else s3)"
    have s4: "mu_locked s4" "chans s4 = chans s1"
      using ex s1(1) by (auto simp: s4_def Exec_update_users_def log_Printf_def Let_def
          split: if_splits option.splits)
    have reg: "registerClient mar now c s =
      and_then (broadcastPresence mar now (ID c) True s4)
        (\<lambda>s5. Return ((log_Printf (LogClientConnected (UniqueID c) (ID c)) s5)
                       \<lparr>mu_locked := False\<rparr>))"
      using False Return ex by (simp add: registerClient_def Let_def s4_def)
    from broadcastPresence_locked[OF s4(1), of mar now "ID c" True]
    obtain s5 where s5: "broadcastPresence mar now (ID c) True s4 = Return s5 \<or>
      broadcastPresence mar now (ID c) True s4 = Blocked s5" "chans s5 = chans s4" by blast
    from s5(1) show ?thesis
    proof
      assume "broadcastPresence mar now (ID c) True s4 = Return s5"
      with reg assms s5(2) s4(2) s1(2) show ?thesis by (auto simp: log_Printf_def)
    next
      assume "broadcastPresence mar now (ID c) True s4 = Blocked s5"
      with reg assms s5(2) s4(2) s1(2) show ?thesis by auto
    qed
  next
    case (Panic p)
    with False assms show ?thesis by (simp add: registerClient_def Let_def)
  next
    case (Blocked b)
    then show ?thesis by (auto simp: close_chan_def split: option.splits if_splits)
  qed
qed

lemma unregisterClient_sends_nothing:
  assumes "unregisterClient mar now c s = Return s' \<or> unregisterClient mar now c s = Blocked s'"
  shows "buf (chans s' a) = buf (chans s a)"
proof (cases "mu_locked s \<or> Clients s (ID c) = None \<or> closed (chans s (Send c))")
  case True
  then consider "mu_locked s" | "\<not> mu_locked s" "Clients s (ID c) = None"
    | d where "\<not> mu_locked s" "Clients s (ID c) = Some d" "closed (chans s (Send c))"
    by (cases "Clients s (ID c)") auto
  then show ?thesis
  proof cases
    case 1
    with assms show ?thesis by (simp add: unregisterClient_def)
  next
    case 2
    with assms show ?thesis by (auto simp: unregisterClient_def Let_def)
  next
    case 3
    with assms show ?thesis by (simp add: unregisterClient_def close_chan_def Let_def)
  qed
next
  case False
  then obtain d where d: "\<not> mu_locked s" "Clients s (ID c) = Some d" "\<not> closed (chans s (Send c))"
    by auto
  let ?s2 = "s\<lparr>mu_locked := True, Clients := (Clients s)(ID c := None),
       chans := (chans s)(Send c := (chans s (Send c))\<lparr>closed := True\<rparr>)\<rparr>"
  obtain err s3 where ex: "Exec_update_users False now (ID c) ?s2 = (err, s3)"
    by (cases "Exec_update_users False now (ID c) ?s2")
  define s4 where "s4 = (if err then log_Printf LogFailedUpdateOffline s3 else s3)"
  have s4: "mu_locked s4" "buf (chans s4 a) = buf (chans s a)"
    using ex by (auto simp: s4_def Exec_update_users_def log_Printf_def Let_def
        split: if_splits option.splits)
  have unreg: "unregisterClient mar now c s =
      and_then (broadcastPresence mar now (ID c) False s4)
        (\<lambda>s5. Return ((log_Printf (LogClientDisconnected (UniqueID c) (ID c)) s5)
                       \<lparr>mu_locked := False\<rparr>))"
    using d ex by (simp add: unregisterClient_def close_chan_def Let_def s4_def)
  from broadcastPresence_locked[OF s4(1), of mar now "ID c" False]
  obtain s5 where s5: "broadcastPresence mar now (ID c) False s4 = Return s5 \<or>
      broadcastPresence mar now (ID c) False s4 = Blocked s5" "chans s5 = chans s4" by blast
  from s5(1) show ?thesis
  proof
    assume "broadcastPresence mar now (ID c) False s4 = Return s5"
    with unreg assms s5(2) s4(2) show ?thesis by (auto simp: log_Printf_def)
  next
    assume "broadcastPresence mar now (ID c) False s4 = Blocked s5"
    with unreg assms s5(2) s4(2) show ?thesis by auto
  qed
qed

lemma registerClient_blocks_with_contacts:
  assumes "\<not> mu_locked s" and "Clients s (ID c) = None"
    and "\<not> next_err (tl (pool_errs s))"
    and "mar \<lparr>Type = EventUserOnline, Payload = PresencePayload (ID c) True now,
              Timestamp = now\<rparr> = Inr data"
    and "(ID c, k) \<in> set (contacts s) \<or> (k, ID c) \<in> set (contacts s)"
  shows "\<exists>s'. registerClient mar now c s = Blocked s'"
proof -
  let ?rows = "remdups (map fst (filter (\<lambda>r. snd r = ID c) (contacts s)) @
               map snd (filter (\<lambda>r. fst r = ID c) (contacts s)))"
  have "k \<in> set ?rows" using assms(5) by force
  then have ne: "?rows \<noteq> []" by (metis emptyE empty_set)
  show ?thesis
    using assms(1-4) ne
    by (auto simp: registerClient_def Exec_update_users_def Query_contacts_def
        broadcastPresence_def log_Printf_def Let_def presence_rows_locked
        split: option.splits)
qed

text \<open>
  C8. The claim: on register and on unregister every registered contact of the user
  receives one presence event. \<open>registerClient\<close> and \<open>unregisterClient\<close> hold the
  write lock of \<open>mu\<close> while they call \<open>broadcastPresence\<close>, which asks for the read
  lock of the same mutex for each contact row. Here alice and bob are contacts and bob
  is registered with an empty open buffer: registering alice blocks at bob's row with
  nothing sent and the lock held, and so does unregistering her when both are
  registered.
\<close>

theorem presence_blocks_under_lock:
  "(''alice'', ''bob'') \<in> set (contacts ex_friends) \<and>
   Clients ex_friends ''bob'' = Some ex_bob \<and>
   room ex_friends (Send ex_bob) \<and> \<not> closed (chans ex_friends (Send ex_bob)) \<and>
   registerClient ex_marshal 7 ex_alice ex_friends =
     Blocked (ex_friends\<lparr>mu_locked := True,
                Clients := (Clients ex_friends)(''alice'' \<mapsto> ex_alice),
                users := (users ex_friends)(''alice'' \<mapsto> \<lparr>is_online = True, last_seen = 7\<rparr>)\<rparr>) \<and>
   unregisterClient ex_marshal 8 ex_alice (ex_hub\<lparr>contacts := [(''alice'', ''bob'')]\<rparr>) =
     Blocked (ex_hub\<lparr>contacts := [(''alice'', ''bob'')], mu_locked := True,
                Clients := (Clients ex_hub)(''alice'' := None),
                chans := (chans ex_hub)(Send ex_alice := \<lparr>buf = [], cap = 256, closed = True\<rparr>),
                users := (users ex_hub)(''alice'' \<mapsto> \<lparr>is_online = False, last_seen = 8\<rparr>)\<rparr>)"
  by (simp add: hub_defs presence_rows_locked ex_friends_def ex_defs event_defs)

section \<open>The user id of a typing event\<close>

text \<open>
  C9. \<open>handleTypingStart\<close> and \<open>handleTypingStop\<close> read only the keys \<open>chatId\<close> and
  \<open>groupId\<close> of the frame's payload: a payload with any other key set to any value
  gives the same result. The message they hand to the hub has the handling client's id
  as the user id of its payload. And when a frame decodes to \<open>typing_start\<close> with chat
  id \<open>B\<close> and no group id, \<open>B\<close> is registered, its channel is open with room, \<open>mu\<close> is
  free and the message encodes, the only change of state is that the buffer of \<open>B\<close>
  gains the encoding of the typing message whose user id is the sender's.
\<close>

theorem typing_user_id_from_identity:
  "(\<forall>k v. k \<noteq> ''chatId'' \<and> k \<noteq> ''groupId'' \<longrightarrow>
      handleTypingStart mar now c (pl(k \<mapsto> v)) s = handleTypingStart mar now c pl s \<and>
      handleTypingStop mar now c (pl(k \<mapsto> v)) s = handleTypingStop mar now c pl s) \<and>
   (\<exists>message. Type message = EventTypingStart \<and> UserID (Payload message) = ID c \<and>
      handleTypingStart mar now c pl s =
        (if GroupID (Payload message) \<noteq> []
         then BroadcastToGroup mar (GroupID (Payload message)) message (ID c) s
         else if ChatID (Payload message) \<noteq> []
         then BroadcastToUsers mar [ChatID (Payload message)] message s
         else Return s)) \<and>
   (\<exists>message. Type message = EventTypingStop \<and> UserID (Payload message) = ID c \<and>
      handleTypingStop mar now c pl s =
        (if GroupID (Payload message) \<noteq> []
         then BroadcastToGroup mar (GroupID (Payload message)) message (ID c) s
         else if ChatID (Payload message) \<noteq> []
         then BroadcastToUsers mar [ChatID (Payload message)] message s
         else Return s)) \<and>
   (\<forall>B cB data.
      unm frame = Inr \<lparr>in_Type = EventTypingStart, in_Payload = pl\<rparr> \<and>
      pl ''chatId'' = Some (JString B) \<and> B \<noteq> [] \<and> string_assert (pl ''groupId'') = [] \<and>
      \<not> mu_locked s \<and> Clients s B = Some cB \<and>
      \<not> closed (chans s (Send cB)) \<and> room s (Send cB) \<and>
      mar \<lparr>Type = EventTypingStart, Payload = TypingPayload (ID c) B [] [], Timestamp = now\<rparr>
        = Inr data \<longrightarrow>
      ReadPump_frame mar unm now c frame s =
        Return (s\<lparr>chans := (chans s)(Send cB :=
                  (chans s (Send cB))\<lparr>buf := buf (chans s (Send cB)) @ [data]\<rparr>)\<rparr>))"
proof (intro conjI allI impI)
  fix k :: string and v
  assume "k \<noteq> ''chatId'' \<and> k \<noteq> ''groupId''"
  then show "handleTypingStart mar now c (pl(k \<mapsto> v)) s = handleTypingStart mar now c pl s"
    and "handleTypingStop mar now c (pl(k \<mapsto> v)) s = handleTypingStop mar now c pl s"
    by (auto simp: handleTypingStart_def handleTypingStop_def)
next
  show "\<exists>message. Type message = EventTypingStart \<and> UserID (Payload message) = ID c \<and>
      handleTypingStart mar now c pl s =
        (if GroupID (Payload message) \<noteq> []
         then BroadcastToGroup mar (GroupID (Payload message)) message (ID c) s
         else if ChatID (Payload message) \<noteq> []
         then BroadcastToUsers mar [ChatID (Payload message)] message s
         else Return s)"
    by (rule exI[of _ "\<lparr>Type = EventTypingStart,
          Payload = TypingPayload (ID c) (string_assert (pl ''chatId''))
                      (string_assert (pl ''groupId'')) [],
          Timestamp = now\<rparr>"])
       (simp add: handleTypingStart_def Let_def)
next
  show "\<exists>message. Type message = EventTypingStop \<and> UserID (Payload message) = ID c \<and>
      handleTypingStop mar now c pl s =
        (if GroupID (Payload message) \<noteq> []
         then BroadcastToGroup mar (GroupID (Payload message)) message (ID c) s
         else if ChatID (Payload message) \<noteq> []
         then BroadcastToUsers mar [ChatID (Payload message)] message s
         else Return s)"
    by (rule exI[of _ "\<lparr>Type = EventTypingStop,
          Payload = TypingPayload (ID c) (string_assert (pl ''chatId''))
                      (string_assert (pl ''groupId'')) [],
          Timestamp = now\<rparr>"])
       (simp add: handleTypingStop_def Let_def)
next
  fix B cB data
  assume "unm frame = Inr \<lparr>in_Type = EventTypingStart, in_Payload = pl\<rparr> \<and>
      pl ''chatId'' = Some (JString B) \<and> B \<noteq> [] \<and> string_assert (pl ''groupId'') = [] \<and>
      \<not> mu_locked s \<and> Clients s B = Some cB \<and>
      \<not> closed (chans s (Send cB)) \<and> room s (Send cB) \<and>
      mar \<lparr>Type = EventTypingStart, Payload = TypingPayload (ID c) B [] [], Timestamp = now\<rparr>
        = Inr data"
  then show "ReadPump_frame mar unm now c frame s =
        Return (s\<lparr>chans := (chans s)(Send cB :=
                  (chans s (Send cB))\<lparr>buf := buf (chans s (Send cB)) @ [data]\<rparr>)\<rparr>)"
    by (simp add: ReadPump_frame_def handleIncomingMessage_def handleTypingStart_def
        BroadcastToUsers_def send_if_online_def select_send_def Let_def)
qed

theorem typing_user_id_from_identity_witness:
  "ex_unmarshal ''typing to bob'' =
     Inr \<lparr>in_Type = EventTypingStart,
          in_Payload = [''chatId'' \<mapsto> JString ''bob'', ''userId'' \<mapsto> JString ''mallory'']\<rparr> \<and>
   \<not> mu_locked ex_hub \<and> Clients ex_hub ''bob'' = Some ex_bob \<and>
   \<not> closed (chans ex_hub (Send ex_bob)) \<and> room ex_hub (Send ex_bob) \<and>
   ex_marshal \<lparr>Type = EventTypingStart, Payload = TypingPayload ''alice'' ''bob'' [] [],
               Timestamp = 4\<rparr> = Inr ''typing_start'' \<and>
   ReadPump_frame ex_marshal ex_unmarshal 4 ex_alice ''typing to bob'' ex_hub =
     Return (ex_hub\<lparr>chans := (chans ex_hub)(Send ex_bob :=
               (chans ex_hub (Send ex_bob))\<lparr>buf := [''typing_start'']\<rparr>)\<rparr>) \<and>
   handleTypingStart ex_marshal 4 ex_alice
       [''chatId'' \<mapsto> JString ''bob'', ''userId'' \<mapsto> JString ''mallory''] ex_hub =
     handleTypingStart ex_marshal 4 ex_alice [''chatId'' \<mapsto> JString ''bob''] ex_hub"
proof -
  let ?pl = "[''chatId'' \<mapsto> JString ''bob'', ''userId'' \<mapsto> JString ''mallory'']"
  have h: "ex_unmarshal ''typing to bob'' = Inr \<lparr>in_Type = EventTypingStart, in_Payload = ?pl\<rparr>"
    "?pl ''chatId'' = Some (JString ''bob'')" "''bob'' \<noteq> []"
    "string_assert (?pl ''groupId'') = []"
    "\<not> mu_locked ex_hub" "Clients ex_hub ''bob'' = Some ex_bob"
    "\<not> closed (chans ex_hub (Send ex_bob))" "room ex_hub (Send ex_bob)"
    "ex_marshal \<lparr>Type = EventTypingStart, Payload = TypingPayload (ID ex_alice) ''bob'' [] [],
               Timestamp = 4\<rparr> = Inr ''typing_start''"
    "ID ex_alice = ''alice''" "buf (chans ex_hub (Send ex_bob)) = []"
    "''userId'' \<noteq> ''chatId''" "''userId'' \<noteq> ''groupId''"
    by (simp_all add: ex_defs event_defs)
  note hyper = typing_user_id_from_identity[of ex_marshal 4 ex_alice
      "[''chatId'' \<mapsto> JString ''bob'']" ex_hub ex_unmarshal "''typing to bob''",
      THEN conjunct1, rule_format, of "''userId''" "JString ''mallory''"]
  have a: "handleTypingStart ex_marshal 4 ex_alice ?pl ex_hub =
     handleTypingStart ex_marshal 4 ex_alice [''chatId'' \<mapsto> JString ''bob''] ex_hub"
    using hyper h(12,13) by blast
  note scen = typing_user_id_from_identity[of ex_marshal 4 ex_alice ?pl ex_hub ex_unmarshal
      "''typing to bob''", THEN conjunct2, THEN conjunct2, THEN conjunct2, rule_format,
      of "''bob''" ex_bob "''typing_start''"]
  have b: "ReadPump_frame ex_marshal ex_unmarshal 4 ex_alice ''typing to bob'' ex_hub =
     Return (ex_hub\<lparr>chans := (chans ex_hub)(Send ex_bob :=
               (chans ex_hub (Send ex_bob))\<lparr>buf := [''typing_start'']\<rparr>)\<rparr>)"
    using scen h by simp
  from a b h show ?thesis by simp
qed

section \<open>The return value of SendMessage\<close>

text \<open>
  C10. \<open>SendMessage\<close> returns an error exactly when \<open>json.Marshal\<close> fails. On an open
  channel whose buffer is full, with a hub that receives, it returns nil, leaves the
  buffer's content as it was, closes the channel and sends the client on
  \<open>Hub.Unregister\<close>; on an open channel with room it returns nil as well, with the data
  appended to the buffer.
\<close>

theorem SendMessage_result:
  "((\<exists>e s'. SendMessage mar c msg s = Return (Some e, s')) \<longleftrightarrow> (\<exists>e. mar msg = Inl e)) \<and>
   (\<forall>data. mar msg = Inr data \<and> \<not> closed (chans s (Send c)) \<and> \<not> room s (Send c) \<and>
        \<not> mu_locked s \<longrightarrow>
      SendMessage mar c msg s =
        Return (None, s\<lparr>chans := (chans s)(Send c := (chans s (Send c))\<lparr>closed := True\<rparr>),
                        Unregister := Unregister s @ [c]\<rparr>)) \<and>
   (\<forall>data. mar msg = Inr data \<and> \<not> closed (chans s (Send c)) \<and> room s (Send c) \<longrightarrow>
      SendMessage mar c msg s =
        Return (None, s\<lparr>chans := (chans s)(Send c :=
                  (chans s (Send c))\<lparr>buf := buf (chans s (Send c)) @ [data]\<rparr>)\<rparr>))"
  by (cases "mar msg")
     (auto simp: SendMessage_def select_send_def close_chan_def send_Unregister_def Let_def)

theorem SendMessage_result_witness:
  "ex_marshal ex_msg = Inr ''message_received'' \<and>
   \<not> closed (chans ex_full (Send ex_bob)) \<and> \<not> room ex_full (Send ex_bob) \<and>
   \<not> mu_locked ex_full \<and>
   SendMessage ex_marshal ex_bob ex_msg ex_full =
     Return (None, ex_full\<lparr>chans := (chans ex_full)
                    (Send ex_bob := (chans ex_full (Send ex_bob))\<lparr>closed := True\<rparr>),
               Unregister := Unregister ex_full @ [ex_bob]\<rparr>) \<and>
   room ex_hub (Send ex_bob) \<and>
   SendMessage ex_marshal ex_bob ex_msg ex_hub =
     Return (None, ex_hub\<lparr>chans := (chans ex_hub)(Send ex_bob :=
                  (chans ex_hub (Send ex_bob))\<lparr>buf := [''message_received'']\<rparr>)\<rparr>)"
proof -
  have m: "ex_marshal ex_msg = Inr ''message_received''"
    by (simp add: ex_defs event_defs)
  have f: "\<not> closed (chans ex_full (Send ex_bob))" "\<not> room ex_full (Send ex_bob)"
    "\<not> mu_locked ex_full"
    by (simp_all add: ex_defs)
  have h: "\<not> closed (chans ex_hub (Send ex_bob))" "room ex_hub (Send ex_bob)"
    "buf (chans ex_hub (Send ex_bob)) = []"
    by (simp_all add: ex_defs)
  from SendMessage_result[of ex_marshal ex_bob ex_msg ex_full]
       SendMessage_result[of ex_marshal ex_bob ex_msg ex_hub] m f h
  show ?thesis by simp
qed

end
